theory Spec2Isabelle
  imports Complex_Main
begin

section \<open>Beat grid: beat adjustment, click track, explicit beat update, energy sections\<close>

text \<open>
  Times are Python floats in the source. They are modelled as exact real numbers:
  every operation of the source on them (addition, subtraction, multiplication,
  division, comparison) is the operation of the same name on \<open>real\<close>, without rounding.
  Exceptions of the source are values of \<open>py_error\<close>.
\<close>

datatype py_error = IndexError | ZeroDivisionError | ValueError | KeyError

subsection \<open>Python and numpy primitives used by the source\<close>

text \<open>\<^verbatim>\<open>int(x)\<close> on a float truncates towards zero.\<close>

definition py_int :: "real \<Rightarrow> int" where
  "py_int x = (if 0 \<le> x then \<lfloor>x\<rfloor> else \<lceil>x\<rceil>)"

text \<open>\<^verbatim>\<open>xs[::k]\<close> for a positive \<open>k\<close>: the first element, then every \<open>k\<close>-th after it.\<close>

function stride :: "nat \<Rightarrow> 'a list \<Rightarrow> 'a list" where
  "stride k [] = []"
| "stride k (x # xs) = x # stride k (drop (k - 1) xs)"
  by pat_completeness auto
termination
  by (relation "measure (\<lambda>(k, xs). length xs)") auto

text \<open>
  \<^verbatim>\<open>xs[::step]\<close> for any integer step: a zero step raises ValueError, a negative step
  walks from the last element towards the first.
\<close>

definition slice_step :: "'a list \<Rightarrow> int \<Rightarrow> py_error + 'a list" where
  "slice_step xs step =
     (if step = 0 then Inl ValueError
      else if 0 < step then Inr (stride (nat step) xs)
      else Inr (stride (nat (- step)) (rev xs)))"

subsection \<open>\<^verbatim>\<open>BeatDetector.adjust_beats\<close>\<close>

text \<open>
  The densify loop
  \<^verbatim>\<open>for i in range(len(beats) - 1):
      new_beats.append(beats[i])
      for j in range(1, int(bpm_multiplier)):
          new_beats.append(beats[i] + (beats[i + 1] - beats[i]) * (j / bpm_multiplier))\<close>
  visits each consecutive pair of beats in turn.
\<close>

fun interpolate :: "real \<Rightarrow> real list \<Rightarrow> real list" where
  "interpolate m (b # b' # bs) =
     (b # map (\<lambda>j. b + (b' - b) * (real j / m)) [1..<nat (py_int m)])
       @ interpolate m (b' # bs)"
| "interpolate m bs = []"

text \<open>The final comprehension \<^verbatim>\<open>[float(b) for b in beats if b >= 0]\<close>.\<close>

definition keep_nonneg :: "real list \<Rightarrow> real list" where
  "keep_nonneg bs = filter (\<lambda>b. 0 \<le> b) bs"

definition adjust_beats :: "real list \<Rightarrow> real \<Rightarrow> real \<Rightarrow> py_error + real list" where
  "adjust_beats beats0 offset bpm_multiplier =
     (let beats = map (\<lambda>b. b + offset) beats0 in
      if bpm_multiplier \<noteq> 1 then
        if 1 < bpm_multiplier then
          (if beats = [] then Inl IndexError
           else Inr (keep_nonneg (interpolate bpm_multiplier beats @ [last beats])))
        else if bpm_multiplier = 0 then Inl ZeroDivisionError
        else
          (case slice_step beats (py_int (1 / bpm_multiplier)) of
             Inl e \<Rightarrow> Inl e
           | Inr decimated \<Rightarrow> Inr (keep_nonneg decimated))
      else Inr (keep_nonneg beats))"

subsection \<open>\<^verbatim>\<open>BeatDetector.generate_click_track_times\<close>\<close>

record click_event =
  time :: real
  accent :: bool

text \<open>
  The loop \<^verbatim>\<open>for beat in beats: ... clicks.append({'time': beat, 'accent': is_downbeat})\<close>,
  with \<^verbatim>\<open>is_downbeat = any(abs(beat - db) < 0.01 for db in downbeat_set)\<close>.
\<close>

fun click_loop :: "real set \<Rightarrow> real list \<Rightarrow> click_event list \<Rightarrow> click_event list" where
  "click_loop downbeat_set [] clicks = clicks"
| "click_loop downbeat_set (beat # rest) clicks =
     click_loop downbeat_set rest
       (clicks @ [\<lparr>time = beat, accent = (\<exists>db\<in>downbeat_set. \<bar>beat - db\<bar> < 1 / 100)\<rparr>])"

text \<open>
  \<^verbatim>\<open>downbeats\<close> defaults to \<^verbatim>\<open>None\<close>;
  \<^verbatim>\<open>set(downbeats) if downbeats else set()\<close> is empty for \<^verbatim>\<open>None\<close> and for the empty list.
\<close>

definition generate_click_track_times :: "real list \<Rightarrow> real list option \<Rightarrow> click_event list" where
  "generate_click_track_times beats downbeats =
     (let downbeat_set =
            (case downbeats of
               None \<Rightarrow> {}
             | Some ds \<Rightarrow> if ds = [] then {} else set ds)
      in click_loop downbeat_set beats [])"

subsection \<open>The \<^verbatim>\<open>update_beats\<close> request handler\<close>

text \<open>
  The dictionary stored under \<^verbatim>\<open>file_info['beats']\<close>, with its keys \<^verbatim>\<open>'beats'\<close>,
  \<^verbatim>\<open>'downbeats'\<close>, \<^verbatim>\<open>'beat_numbers'\<close>, \<^verbatim>\<open>'bpm'\<close>, \<^verbatim>\<open>'time_signature'\<close> and
  \<^verbatim>\<open>'confidence'\<close>.
\<close>

record beat_grid =
  grid_beats :: "real list"
  grid_downbeats :: "real list"
  grid_beat_numbers :: "nat list"
  grid_bpm :: real
  grid_time_signature :: string
  grid_confidence :: real

text \<open>
  An entry of \<^verbatim>\<open>analysis_results\<close>. The key \<^verbatim>\<open>'beats'\<close> is absent until the file has been
  analysed.
\<close>

record file_info =
  filepath :: string
  filename :: string
  status :: string
  beat_data :: "beat_grid option"

text \<open>
  The JSON body of the request: the values under the keys \<^verbatim>\<open>'beats'\<close>, \<^verbatim>\<open>'offset'\<close> and
  \<^verbatim>\<open>'bpm'\<close> when present, and whether the body has any other key. An offset and a bpm are
  numbers here, so \<^verbatim>\<open>float(...)\<close> of them does not raise.
\<close>

record update_request =
  req_beats :: "real list option"
  req_offset :: "real option"
  req_bpm :: "real option"
  req_other :: bool

datatype response =
    NotFound
  | BadRequest
  | ServerError py_error
  | Updated beat_grid

text \<open>The block under \<^verbatim>\<open>if 'beats' in data\<close>.\<close>

definition set_beats :: "real list \<Rightarrow> beat_grid \<Rightarrow> beat_grid" where
  "set_beats new_beats g =
     g\<lparr>grid_beats := new_beats,
       grid_downbeats := stride 4 new_beats,
       grid_beat_numbers := map (\<lambda>i. i mod 4 + 1) [0..<length new_beats]\<rparr>"

definition update_beats ::
  "(string \<rightharpoonup> file_info) \<Rightarrow> string \<Rightarrow> update_request option
     \<Rightarrow> (string \<rightharpoonup> file_info) \<times> response" where
  "update_beats analysis_results file_id data =
     (case analysis_results file_id of
        None \<Rightarrow> (analysis_results, NotFound)
      | Some info \<Rightarrow>
        (case data of
           None \<Rightarrow> (analysis_results, BadRequest)
         | Some d \<Rightarrow>
           if req_beats d = None \<and> req_offset d = None \<and> req_bpm d = None \<and> \<not> req_other d
           then (analysis_results, BadRequest)
           else
             (case beat_data info of
                None \<Rightarrow> (analysis_results, ServerError KeyError)
              | Some g \<Rightarrow>
                let g1 = (case req_beats d of None \<Rightarrow> g | Some bs \<Rightarrow> set_beats bs g) in
                (case (case req_offset d of
                         None \<Rightarrow> Inr g1
                       | Some off \<Rightarrow>
                           (case adjust_beats (grid_beats g1) off 1 of
                              Inl e \<Rightarrow> Inl e
                            | Inr adjusted_beats \<Rightarrow>
                                Inr (g1\<lparr>grid_beats := adjusted_beats,
                                         grid_downbeats := stride 4 adjusted_beats\<rparr>))) of
                   Inl e \<Rightarrow>
                     (analysis_results(file_id \<mapsto> info\<lparr>beat_data := Some g1\<rparr>), ServerError e)
                 | Inr g2 \<Rightarrow>
                     let g3 = (case req_bpm d of None \<Rightarrow> g2 | Some b \<Rightarrow> g2\<lparr>grid_bpm := b\<rparr>) in
                     (analysis_results(file_id \<mapsto> info\<lparr>beat_data := Some g3\<rparr>), Updated g3)))))"

subsection \<open>\<^verbatim>\<open>StructureAnalyzer.detect_energy_sections\<close>\<close>

record section_rec =
  sec_start :: real
  sec_end :: real
  sec_label :: string
  sec_color :: string

definition SECTION_COLORS :: "string \<rightharpoonup> string" where
  "SECTION_COLORS = map_of
     [(''intro'', ''#4CAF50''), (''verse'', ''#2196F3''), (''chorus'', ''#FF9800''),
      (''bridge'', ''#9C27B0''), (''outro'', ''#607D8B''), (''breakdown'', ''#00BCD4''),
      (''buildup'', ''#FFEB3B''), (''drop'', ''#F44336''), (''unknown'', ''#9E9E9E'')]"

text \<open>\<^verbatim>\<open>SECTION_COLORS.get(label, SECTION_COLORS['unknown'])\<close>.\<close>

definition section_color :: "string \<Rightarrow> string" where
  "section_color label = (case SECTION_COLORS label of Some c \<Rightarrow> c | None \<Rightarrow> ''#9E9E9E'')"

definition mk_section :: "real \<Rightarrow> real \<Rightarrow> string \<Rightarrow> section_rec" where
  "mk_section s e label =
     \<lparr>sec_start = s, sec_end = e, sec_label = label, sec_color = section_color label\<rparr>"









subsection \<open>\<^verbatim>\<open>StructureAnalyzer.analyze_structure\<close>\<close>

text \<open>
  The fallback boundaries \<^verbatim>\<open>np.linspace(0, features.shape[1], num_sections + 1).astype(int)\<close>:
  \<open>k + 1\<close> evenly spaced values from 0 to \<open>n\<close>, truncated to integers.
\<close>

definition uniform_bounds :: "nat \<Rightarrow> nat \<Rightarrow> nat list" where
  "uniform_bounds n k = map (\<lambda>i. nat \<lfloor>real i * (real n / real k)\<rfloor>) [0..<k + 1]"

text \<open>
  \<^verbatim>\<open>cluster_counts\<close> is a dictionary from cluster ids to counts; it is an association list
  in insertion order, which is the order Python iterates it in.
  \<^verbatim>\<open>cluster_counts[cl] = cluster_counts.get(cl, 0) + 1\<close>:
\<close>

fun dict_incr :: "nat \<Rightarrow> (nat \<times> nat) list \<Rightarrow> (nat \<times> nat) list" where
  "dict_incr cl [] = [(cl, 1)]"
| "dict_incr cl ((k, c) # kvs) =
     (if k = cl then (k, c + 1) # kvs else (k, c) # dict_incr cl kvs)"

definition count_clusters :: "nat list \<Rightarrow> (nat \<times> nat) list" where
  "count_clusters cluster_labels = foldl (\<lambda>counts cl. dict_incr cl counts) [] cluster_labels"

definition count_of :: "(nat \<times> nat) list \<Rightarrow> nat \<Rightarrow> nat" where
  "count_of cluster_counts cl = (case map_of cluster_counts cl of Some c \<Rightarrow> c | None \<Rightarrow> 0)"

text \<open>
  \<^verbatim>\<open>max(cluster_counts, key=cluster_counts.get)\<close>: the first key whose count is maximal.
\<close>

definition most_common :: "(nat \<times> nat) list \<Rightarrow> nat option" where
  "most_common cluster_counts =
     (case cluster_counts of
        [] \<Rightarrow> None
      | kv # kvs \<Rightarrow> Some (fst (foldl (\<lambda>best x. if snd best < snd x then x else best) kv kvs)))"

text \<open>
  The key in the second place of
  \<^verbatim>\<open>sorted(cluster_counts.items(), key=lambda x: x[1], reverse=True)\<close>, a stable sort by
  descending count, when the dictionary has more than one key.
\<close>

definition second_common :: "(nat \<times> nat) list \<Rightarrow> nat option" where
  "second_common cluster_counts =
     (if 1 < length cluster_counts then
        (case sort_key (\<lambda>x. - int (snd x)) cluster_counts of
           a # b # rest \<Rightarrow> Some (fst b)
         | _ \<Rightarrow> None)
      else None)"

text \<open>One round of \<^verbatim>\<open>for i, cl in enumerate(cluster_labels)\<close>.\<close>

definition label_by_cluster ::
  "(nat \<times> nat) list \<Rightarrow> nat option \<Rightarrow> nat option \<Rightarrow> nat list \<Rightarrow> string list \<Rightarrow> nat
     \<Rightarrow> string list" where
  "label_by_cluster cluster_counts most_common_cluster second nat_labels labels i =
     (let cl = nat_labels ! i in
      if labels ! i = ''unknown'' then
        if Some cl = most_common_cluster \<and> 1 < count_of cluster_counts cl
        then labels[i := ''chorus'']
        else if second \<noteq> None \<and> Some cl = second \<and> 1 < count_of cluster_counts cl
        then labels[i := ''verse'']
        else labels
      else labels)"

text \<open>
  The label chosen from \<^verbatim>\<open>pos = (bound_times[i] + bound_times[i + 1]) / 2 / duration\<close>. The
  times are numpy floats, so a zero duration does not raise: \<open>pos\<close> is then infinite or
  not a number.
\<close>

definition position_label :: "real \<Rightarrow> real \<Rightarrow> string" where
  "position_label mid duration =
     (if duration = 0 then
        (if mid < 0 then ''intro'' else if 0 < mid then ''outro'' else ''verse'')
      else
        (let pos = mid / duration in
         if pos < 15 / 100 then ''intro''
         else if 9 / 10 < pos then ''outro''
         else if 4 / 10 < pos \<and> pos < 6 / 10 then ''bridge''
         else ''verse''))"

text \<open>One round of the last loop \<^verbatim>\<open>for i in range(num_segments)\<close>.\<close>

definition label_by_position :: "real list \<Rightarrow> real \<Rightarrow> string list \<Rightarrow> nat \<Rightarrow> string list" where
  "label_by_position bound_times duration labels i =
     (if labels ! i = ''unknown''
      then labels[i := position_label ((bound_times ! i + bound_times ! (i + 1)) / 2) duration]
      else labels)"

text \<open>
  \<^verbatim>\<open>_label_segments\<close>. The segment features only feed \<^verbatim>\<open>KMeans\<close>, which is scikit-learn's:
  its outcome is the parameter \<open>kmeans\<close>, \<open>Some c\<close> when \<^verbatim>\<open>fit_predict\<close> returned the cluster
  \<open>c i\<close> for each segment \<open>i\<close>, \<open>None\<close> when it raised.
\<close>

definition label_segments ::
  "(nat \<Rightarrow> nat) option \<Rightarrow> nat \<Rightarrow> real list \<Rightarrow> real \<Rightarrow> string list" where
  "label_segments kmeans num_segments bound_times duration =
     (let labels0 = replicate num_segments ''unknown'' in
      if num_segments = 0 then labels0
      else
        let cluster_labels =
              (if 3 \<le> num_segments then
                 (case kmeans of
                    Some c \<Rightarrow> map c [0..<num_segments]
                  | None \<Rightarrow> [0..<num_segments])
               else [0..<num_segments]);
            cluster_counts = count_clusters cluster_labels;
            labels1 =
              (if bound_times ! 0 < duration * (1 / 10)
               then labels0[0 := ''intro''] else labels0);
            labels2 =
              (if duration * (85 / 100) < bound_times ! (length bound_times - 2)
               then labels1[num_segments - 1 := ''outro''] else labels1);
            labels3 =
              (if cluster_counts \<noteq> [] then
                 foldl (label_by_cluster cluster_counts (most_common cluster_counts)
                          (second_common cluster_counts) cluster_labels)
                   labels2 [0..<length cluster_labels]
               else labels2)
        in foldl (label_by_position bound_times duration) labels3 [0..<num_segments])"

record structure_result =
  res_sections :: "section_rec list"
  res_num_sections :: nat
  res_duration :: real

text \<open>
  \<^verbatim>\<open>analyze_structure\<close> from the features on. What librosa computes is a parameter: the
  outcome \<open>agglomerative\<close> of \<^verbatim>\<open>librosa.segment.agglomerative(features, num_sections)\<close>
  (\<open>None\<close> when it raised), the mapping \<open>frames_to_time\<close>, the number \<open>n_frames\<close> of columns
  of the feature matrix (\<^verbatim>\<open>features.shape[1]\<close>) and the duration. \<open>bound_frames_of\<close> is the
  \<^verbatim>\<open>try\<close> block that chooses \<^verbatim>\<open>bound_frames\<close>.
\<close>

definition bound_frames_of :: "nat list option \<Rightarrow> nat \<Rightarrow> nat \<Rightarrow> nat list" where
  "bound_frames_of agglomerative n_frames num_sections =
     (case agglomerative of
        Some bounds \<Rightarrow> [0] @ bounds @ [n_frames]
      | None \<Rightarrow> uniform_bounds n_frames num_sections)"

definition analyze_structure ::
  "nat list option \<Rightarrow> (nat \<Rightarrow> nat) option \<Rightarrow> (nat \<Rightarrow> real) \<Rightarrow> nat \<Rightarrow> real \<Rightarrow> nat
     \<Rightarrow> structure_result" where
  "analyze_structure agglomerative kmeans frames_to_time n_frames duration num_sections =
     (let bound_frames = bound_frames_of agglomerative n_frames num_sections;
          bound_times = map frames_to_time bound_frames;
          labels = label_segments kmeans (length bound_frames - 1) bound_times duration;
          sections =
            map (\<lambda>i. mk_section (bound_times ! i) (bound_times ! (i + 1)) (labels ! i))
              [0..<length bound_times - 1]
      in \<lparr>res_sections = sections, res_num_sections = length sections,
           res_duration = duration\<rparr>)"

text \<open>
  librosa's documented framing, with its default hop length of 512 samples: frame \<open>f\<close>
  is at time \<open>f * 512 / sr\<close>, a signal of \<open>n\<close> samples lasts \<open>n / sr\<close> seconds, and its
  centred feature matrices have \<open>1 + n div 512\<close> columns.
\<close>

definition librosa_frames_to_time :: "nat \<Rightarrow> nat \<Rightarrow> real" where
  "librosa_frames_to_time sr frames = real frames * 512 / real sr"

definition librosa_get_duration :: "nat \<Rightarrow> nat \<Rightarrow> real" where
  "librosa_get_duration sr n_samples = real n_samples / real sr"

definition librosa_frame_count :: "nat \<Rightarrow> nat" where
  "librosa_frame_count n_samples = 1 + n_samples div 512"

section \<open>Properties of the slicing primitives\<close>

lemma stride_one: "stride (Suc 0) xs = xs"
  by (induction xs) auto

lemma length_stride: "0 < k \<Longrightarrow> length (stride k xs) = (length xs + k - 1) div k"
proof (induction k xs rule: stride.induct)
  case (1 k)
  then show ?case by simp
next
  case (2 k x xs)
  show ?case
  proof (cases "length xs < k - 1")
    case True
    with 2 show ?thesis by simp
  next
    case False
    with 2 have "length (stride k (drop (k - 1) xs)) = (length xs - (k - 1) + k - 1) div k"
      by simp
    also have "length xs - (k - 1) + k - 1 = length xs" using False 2 by simp
    finally have "length (stride k (x # xs)) = Suc (length xs div k)" by simp
    also have "\<dots> = (length xs + k) div k" using 2 by simp
    finally show ?thesis by simp
  qed
qed

lemma stride_index_bound:
  assumes "0 < k" and "n < (L + k - 1) div k"
  shows "n * k < (L::nat)"
proof -
  from assms have "Suc n \<le> (L + k - 1) div k" by simp
  with assms(1) have "Suc n * k \<le> L + k - 1"
    by (simp only: less_eq_div_iff_mult_less_eq)
  with assms(1) show ?thesis by simp
qed

lemma nth_stride: "0 < k \<Longrightarrow> i < length (stride k xs) \<Longrightarrow> stride k xs ! i = xs ! (i * k)"
proof (induction k xs arbitrary: i rule: stride.induct)
  case (1 k)
  then show ?case by simp
next
  case (2 k x xs)
  show ?case
  proof (cases i)
    case 0
    then show ?thesis by simp
  next
    case (Suc n)
    with 2 have n: "n < length (stride k (drop (k - 1) xs))" by simp
    with 2 have le: "n * k < length (drop (k - 1) xs)"
      using stride_index_bound [of k n "length (drop (k - 1) xs)"]
        length_stride [of k "drop (k - 1) xs"]
      by simp
    have "stride k (x # xs) ! i = stride k (drop (k - 1) xs) ! n" using Suc by simp
    also have "\<dots> = drop (k - 1) xs ! (n * k)" using 2 n by simp
    also have "\<dots> = xs ! (k - 1 + n * k)" using le by simp
    also have "\<dots> = (x # xs) ! (i * k)" using Suc 2(2) by (simp add: nth_Cons')
    finally show ?thesis .
  qed
qed

lemma set_stride: "set (stride k xs) \<subseteq> set xs"
proof (induction k xs rule: stride.induct)
  case (1 k)
  then show ?case by simp
next
  case (2 k x xs)
  have "set (drop (k - 1) xs) \<subseteq> set xs" by (rule set_drop_subset)
  with 2 show ?case by auto
qed

lemma stride_index:
  assumes "0 < k"
  shows "stride k xs = map (\<lambda>i. xs ! (i * k)) [0..<(length xs + k - 1) div k]"
proof (rule nth_equalityI)
  show "length (stride k xs) = length (map (\<lambda>i. xs ! (i * k)) [0..<(length xs + k - 1) div k])"
    using assms by (simp add: length_stride)
next
  fix i
  assume "i < length (stride k xs)"
  then show "stride k xs ! i = map (\<lambda>i. xs ! (i * k)) [0..<(length xs + k - 1) div k] ! i"
    using assms by (simp add: nth_stride length_stride)
qed

lemma length_filter_all: "length (filter P xs) = length xs \<longleftrightarrow> (\<forall>x\<in>set xs. P x)"
proof (induction xs)
  case Nil
  then show ?case by simp
next
  case (Cons x xs)
  have le: "length (filter P xs) \<le> length xs" by (rule length_filter_le)
  show ?case
  proof (cases "P x")
    case True
    with Cons show ?thesis by simp
  next
    case False
    from le have "length (filter P xs) \<noteq> Suc (length xs)" by linarith
    with False show ?thesis by simp
  qed
qed

lemma py_int_recip: "1 / 2 < m \<Longrightarrow> m < 1 \<Longrightarrow> py_int (1 / m) = 1"
proof -
  assume a: "1 / 2 < m" "m < 1"
  then have "1 < 1 / m" "1 / m < 2" by (simp_all add: field_simps)
  then have "\<lfloor>1 / m\<rfloor> = 1" by linarith
  with a show ?thesis by (simp add: py_int_def)
qed

lemma filter_map_index:
  "filter P (map f xs) =
     map (\<lambda>i. f (xs ! i)) (filter (\<lambda>i. P (f (xs ! i))) [0..<length xs])"
proof -
  have e: "map f xs = map (\<lambda>i. f (xs ! i)) [0..<length xs]"
    by (rule nth_equalityI) simp_all
  have "filter P (map f xs) = filter P (map (\<lambda>i. f (xs ! i)) [0..<length xs])"
    by (simp only: e [symmetric])
  also have "\<dots> = map (\<lambda>i. f (xs ! i)) (filter (\<lambda>i. P (f (xs ! i))) [0..<length xs])"
    by (simp only: filter_map comp_def)
  finally show ?thesis .
qed

section \<open>Beat adjustment\<close>

lemma adjust_beats_unit:
  "adjust_beats beats off 1 = Inr (keep_nonneg (map (\<lambda>b. b + off) beats))"
  by (simp add: adjust_beats_def)

lemma adjust_beats_half: "adjust_beats beats 0 (1 / 2) = Inr (keep_nonneg (stride 2 beats))"
  by (simp add: adjust_beats_def py_int_def slice_step_def)

lemma keep_nonneg_id: "\<forall>b\<in>set bs. 0 \<le> b \<Longrightarrow> keep_nonneg bs = bs"
  by (simp add: keep_nonneg_def)

text \<open>
  C2, as stated: with offset 0 and multiplier 1.0 the result equals the input list, for
  every list of beat times. The final filter drops a negative beat time, so the statement
  fails on the list \<open>[-1.0]\<close>.
\<close>

theorem adjust_beats_identity_counterexample:
  "adjust_beats [- 1] 0 1 = Inr [] \<and> adjust_beats [- 1] 0 1 \<noteq> Inr [- 1]"
  by (simp add: adjust_beats_def keep_nonneg_def)

text \<open>
  C2, amended: with offset 0 and multiplier 1.0 the result is the input list without its
  negative entries; it is the input list itself exactly when no beat time is negative.
\<close>

theorem adjust_beats_identity:
  "adjust_beats beats 0 1 = Inr (filter (\<lambda>b. 0 \<le> b) beats) \<and>
   (adjust_beats beats 0 1 = Inr beats \<longleftrightarrow> (\<forall>b\<in>set beats. 0 \<le> b))"
  by (simp add: adjust_beats_unit keep_nonneg_def filter_id_conv)

theorem adjust_beats_identity_witness:
  "adjust_beats [0, 1 / 2, 2] 0 1 = Inr [0, 1 / 2, 2] \<and>
   adjust_beats [0, - (1 / 2), 2] 0 1 = Inr [0, 2]"
  using adjust_beats_identity [of "[0, 1 / 2, 2]"] adjust_beats_identity [of "[0, - (1 / 2), 2]"]
  by simp

text \<open>
  C3, as stated: \<open>adjust_beats([1.0, 2.0, 3.0], offset=-1.5, multiplier=1.0)\<close> is
  \<open>[0.0, 0.5, 1.5]\<close> and nothing is dropped. The first shifted value is \<open>-0.5\<close>.
\<close>

theorem adjust_beats_example_counterexample:
  "adjust_beats [1, 2, 3] (- (3 / 2)) 1 \<noteq> Inr [0, 1 / 2, 3 / 2]"
  by (simp add: adjust_beats_def keep_nonneg_def)

text \<open>
  C3, amended: the call returns \<open>[0.5, 1.5]\<close>; the first beat is shifted to \<open>-0.5\<close> and
  dropped by the negative-time filter.
\<close>

theorem adjust_beats_example:
  "adjust_beats [1, 2, 3] (- (3 / 2)) 1 = Inr [1 / 2, 3 / 2]"
  by (simp add: adjust_beats_def keep_nonneg_def)

text \<open>
  C4: with multiplier 1.0 and any offset \<open>off\<close>, the result lists, in input order, the
  values \<open>beats[i] + off\<close> of exactly the indices \<open>i\<close> whose shifted value is not negative.
\<close>

theorem adjust_beats_offset:
  "adjust_beats beats off 1 =
     Inr (map (\<lambda>i. beats ! i + off) (filter (\<lambda>i. 0 \<le> beats ! i + off) [0..<length beats]))"
  unfolding adjust_beats_unit keep_nonneg_def
  by (simp only: filter_map_index [of "\<lambda>t. 0 \<le> t" "\<lambda>b. b + off" beats])

text \<open>
  C5, as stated: with offset 0 and multiplier 0.5 the result has length
  \<open>ceil(len(beats) / 2)\<close>, for every list of beat times. On \<open>[-1.0]\<close> the only element
  kept by the stride is dropped by the final filter.
\<close>

theorem adjust_beats_halve_counterexample:
  "adjust_beats [- 1] 0 (1 / 2) = Inr [] \<and>
   length ([] :: real list) \<noteq> nat \<lceil>real (length [- 1 :: real]) / 2\<rceil>"
  by (simp add: adjust_beats_def keep_nonneg_def slice_step_def py_int_def)

text \<open>
  C5, amended: for every list of beat times, the result with offset 0 and multiplier 0.5
  lists, in order, the non-negative ones among the elements at stride 2 starting at index
  0, that is among \<open>beats[2 * i]\<close> for \<open>i < ceil(len(beats) / 2)\<close>; it is exactly those
  elements, and its length is \<open>ceil(len(beats) / 2)\<close>, if and only if none of them is
  negative.
\<close>

theorem adjust_beats_halve:
  "adjust_beats beats 0 (1 / 2) =
     Inr (filter (\<lambda>b. 0 \<le> b)
            (map (\<lambda>i. beats ! (2 * i)) [0..<nat \<lceil>real (length beats) / 2\<rceil>]))
   \<and> (adjust_beats beats 0 (1 / 2) =
         Inr (map (\<lambda>i. beats ! (2 * i)) [0..<nat \<lceil>real (length beats) / 2\<rceil>])
        \<longleftrightarrow> (\<forall>i<nat \<lceil>real (length beats) / 2\<rceil>. 0 \<le> beats ! (2 * i)))
   \<and> (\<forall>ys. adjust_beats beats 0 (1 / 2) = Inr ys \<longrightarrow>
         (length ys = nat \<lceil>real (length beats) / 2\<rceil>
          \<longleftrightarrow> (\<forall>i<nat \<lceil>real (length beats) / 2\<rceil>. 0 \<le> beats ! (2 * i))))"
proof -
  let ?n = "nat \<lceil>real (length beats) / 2\<rceil>"
  let ?evens = "map (\<lambda>i. beats ! (2 * i)) [0..<?n]"
  have n: "(length beats + 2 - 1) div 2 = ?n" by simp linarith
  have "stride 2 beats = map (\<lambda>i. beats ! (i * 2)) [0..<(length beats + 2 - 1) div 2]"
    by (rule stride_index) simp
  then have evens: "stride 2 beats = ?evens"
    by (simp only: n mult.commute [of _ 2])
  have run: "adjust_beats beats 0 (1 / 2) = Inr (filter (\<lambda>b. 0 \<le> b) ?evens)"
    by (simp only: adjust_beats_half keep_nonneg_def evens)
  have all: "(\<forall>x\<in>set ?evens. 0 \<le> x) \<longleftrightarrow> (\<forall>i<?n. 0 \<le> beats ! (2 * i))"
    by auto
  have same: "filter (\<lambda>b. 0 \<le> b) ?evens = ?evens \<longleftrightarrow> (\<forall>i<?n. 0 \<le> beats ! (2 * i))"
    by (simp only: filter_id_conv all)
  have len: "length (filter (\<lambda>b. 0 \<le> b) ?evens) = ?n \<longleftrightarrow> (\<forall>i<?n. 0 \<le> beats ! (2 * i))"
    using length_filter_all [of "\<lambda>b. 0 \<le> b" ?evens] all by simp
  from run same len show ?thesis by simp
qed

theorem adjust_beats_halve_witness:
  "adjust_beats [1, - 2, 3] 0 (1 / 2) = Inr [1, 3]
   \<and> length [1, 3 :: real] = nat \<lceil>real (length [1, - 2, 3 :: real]) / 2\<rceil>
   \<and> adjust_beats [- 1, 2, 3] 0 (1 / 2) = Inr [3]"
  using adjust_beats_halve [of "[1, - 2, 3]"] adjust_beats_halve [of "[- 1, 2, 3]"]
  by (simp add: upt_conv_Cons)

text \<open>
  C10: for a multiplier strictly between 0.5 and 1.0 the stride \<open>int(1.0 / m)\<close> is 1, and
  the result with offset 0 is the result for multiplier 1.0.
\<close>

theorem adjust_beats_no_decimation:
  assumes "1 / 2 < m" and "m < 1"
  shows "py_int (1 / m) = 1 \<and> adjust_beats beats 0 m = adjust_beats beats 0 1"
proof -
  have s: "py_int (1 / m) = 1" using assms by (rule py_int_recip)
  have "adjust_beats beats 0 m = Inr (keep_nonneg (stride (Suc 0) beats))"
    using assms by (simp add: adjust_beats_def s slice_step_def)
  then show ?thesis using s by (simp add: stride_one adjust_beats_unit)
qed

theorem adjust_beats_no_decimation_witness:
  "1 / 2 < (3 / 4 :: real) \<and> (3 / 4 :: real) < 1 \<and> py_int (1 / (3 / 4)) = 1
     \<and> adjust_beats [1, - 2, 3] 0 (3 / 4) = Inr [1, 3]
     \<and> adjust_beats [1, - 2, 3] 0 1 = Inr [1, 3]"
  using adjust_beats_no_decimation [of "3 / 4" "[1, - 2, 3]"]
  by (simp add: adjust_beats_unit keep_nonneg_def)

subsection \<open>Densifying\<close>

lemma py_int_floor: "0 \<le> m \<Longrightarrow> py_int m = \<lfloor>m\<rfloor>"
  by (simp add: py_int_def)

lemma steps_pos: "1 < m \<Longrightarrow> 0 < nat (py_int m)"
proof -
  assume "1 < m"
  then have "1 \<le> \<lfloor>m\<rfloor>" by linarith
  with \<open>1 < m\<close> show ?thesis by (simp add: py_int_def)
qed

lemma length_interpolate:
  "0 < nat (py_int m) \<Longrightarrow> length (interpolate m bs) = (length bs - 1) * nat (py_int m)"
  by (induction m bs rule: interpolate.induct) simp_all

lemma nth_interpolate:
  assumes "0 < nat (py_int m)"
  shows "i < length bs - 1 \<Longrightarrow> j < nat (py_int m) \<Longrightarrow>
         interpolate m bs ! (i * nat (py_int m) + j)
           = bs ! i + (bs ! (i + 1) - bs ! i) * (real j / m)"
proof (induction m bs arbitrary: i rule: interpolate.induct)
  case (1 m b b' bs)
  let ?k = "nat (py_int m)"
  let ?seg = "b # map (\<lambda>j. b + (b' - b) * (real j / m)) [1..<?k]"
  have len: "length ?seg = ?k" using assms 1 by simp
  have unfold: "interpolate m (b # b' # bs) = ?seg @ interpolate m (b' # bs)" by simp
  show ?case
  proof (cases i)
    case 0
    have "interpolate m (b # b' # bs) ! (i * ?k + j) = (?seg @ interpolate m (b' # bs)) ! j"
      using 0 by (simp only: unfold) simp
    also have "\<dots> = ?seg ! j"
      using 1(3) by (simp only: nth_append len if_True)
    also have "\<dots> = b + (b' - b) * (real j / m)"
    proof (cases j)
      case 0
      then show ?thesis by simp
    next
      case (Suc j')
      with 1(3) have "1 + j' < ?k" by simp
      then have "[1..<?k] ! j' = 1 + j'" by (rule nth_upt)
      with Suc 1(3) show ?thesis by (simp del: upt_Suc)
    qed
    finally show ?thesis using 0 by simp
  next
    case (Suc n)
    have "interpolate m (b # b' # bs) ! (i * ?k + j)
            = (?seg @ interpolate m (b' # bs)) ! (length ?seg + (n * ?k + j))"
      using Suc by (simp only: unfold len) (simp add: add.assoc)
    also have "\<dots> = interpolate m (b' # bs) ! (n * ?k + j)"
      by (rule nth_append_length_plus)
    also have "\<dots> = (b' # bs) ! n + ((b' # bs) ! (n + 1) - (b' # bs) ! n) * (real j / m)"
      using 1 Suc by simp
    finally show ?thesis using Suc by simp
  qed
qed simp_all

lemma interp_nonneg:
  assumes "0 \<le> b" and "0 \<le> b'" and "0 \<le> t" and "t \<le> (1::real)"
  shows "0 \<le> b + (b' - b) * t"
proof -
  have "0 \<le> b * (1 - t)" using assms by simp
  moreover have "0 \<le> b' * t" using assms by simp
  ultimately have "0 \<le> b * (1 - t) + b' * t" by simp
  then show ?thesis by (simp add: algebra_simps)
qed

lemma interpolate_nonneg:
  "1 < m \<Longrightarrow> \<forall>b\<in>set bs. 0 \<le> b \<Longrightarrow> \<forall>x\<in>set (interpolate m bs). 0 \<le> x"
proof (induction m bs rule: interpolate.induct)
  case (1 m b b' bs)
  have m: "1 < m" by fact
  have "0 \<le> b + (b' - b) * (real j / m)" if "j < nat (py_int m)" for j
  proof (rule interp_nonneg)
    show "0 \<le> b" "0 \<le> b'" using 1 by simp_all
    show "0 \<le> real j / m" using m by simp
    have "real j \<le> m" using that m by (simp add: py_int_def) linarith
    then show "real j / m \<le> 1" using m by simp
  qed
  with 1 show ?case by auto
qed simp_all


text \<open>
  C6: for at least two non-negative beat times and a multiplier \<open>m > 1\<close>, with offset 0, the
  result has \<open>floor(m)\<close> entries for each consecutive pair of beats, then the last beat:
  entry \<open>i * floor(m)\<close> is the original beat \<open>i\<close>, the \<open>floor(m) - 1\<close> entries after it are
  the points \<open>beats[i] + (beats[i+1] - beats[i]) * (j / m)\<close> for \<open>j = 1 .. floor(m) - 1\<close>, and
  the last entry is the last input beat.
\<close>

theorem adjust_beats_densify:
  assumes "2 \<le> length beats" and "\<forall>b\<in>set beats. 0 \<le> b" and "1 < m"
  shows "\<exists>ys. adjust_beats beats 0 m = Inr ys
           \<and> length ys = (length beats - 1) * nat \<lfloor>m\<rfloor> + 1
           \<and> (\<forall>i<length beats - 1.
                 ys ! (i * nat \<lfloor>m\<rfloor>) = beats ! i
                 \<and> (\<forall>j<nat \<lfloor>m\<rfloor>. ys ! (i * nat \<lfloor>m\<rfloor> + j)
                        = beats ! i + (beats ! (i + 1) - beats ! i) * (real j / m)))
           \<and> ys ! ((length beats - 1) * nat \<lfloor>m\<rfloor>) = last beats
           \<and> last ys = last beats"
proof -
  let ?k = "nat (py_int m)"
  let ?ys = "interpolate m beats @ [last beats]"
  have k: "0 < ?k" using assms(3) by (rule steps_pos)
  have fl: "nat \<lfloor>m\<rfloor> = ?k" using assms(3) by (simp add: py_int_floor)
  have ne: "beats \<noteq> []" using assms(1) by auto
  have len_i: "length (interpolate m beats) = (length beats - 1) * ?k"
    using k by (rule length_interpolate)
  have "\<forall>x\<in>set (interpolate m beats). 0 \<le> x"
    using assms(3) assms(2) by (rule interpolate_nonneg)
  moreover have "0 \<le> last beats" using assms(2) ne by simp
  ultimately have "\<forall>x\<in>set ?ys. 0 \<le> x" by simp
  then have "keep_nonneg ?ys = ?ys" by (rule keep_nonneg_id)
  then have run: "adjust_beats beats 0 m = Inr ?ys"
    using assms(3) ne by (simp add: adjust_beats_def)
  have len: "length ?ys = (length beats - 1) * ?k + 1"
    using len_i by simp
  have nth: "?ys ! (i * ?k + j) = beats ! i + (beats ! (i + 1) - beats ! i) * (real j / m)"
    if "i < length beats - 1" and "j < ?k" for i j
  proof -
    have "i * ?k + j < Suc i * ?k" using that(2) by simp
    also have "\<dots> \<le> (length beats - 1) * ?k" using that(1) by (intro mult_le_mono1) simp
    finally have "i * ?k + j < length (interpolate m beats)" using len_i by simp
    then have "?ys ! (i * ?k + j) = interpolate m beats ! (i * ?k + j)"
      by (simp add: nth_append)
    also have "\<dots> = beats ! i + (beats ! (i + 1) - beats ! i) * (real j / m)"
      using k that by (rule nth_interpolate)
    finally show ?thesis .
  qed
  have orig: "?ys ! (i * ?k) = beats ! i" if "i < length beats - 1" for i
    using nth [OF that k] by simp
  have lastpos: "?ys ! ((length beats - 1) * ?k) = last beats"
    using len_i by (simp add: nth_append)
  have "last ?ys = last beats" by simp
  with run len nth orig lastpos show ?thesis
    unfolding fl by blast
qed

theorem adjust_beats_densify_witness:
  "adjust_beats [0, 1, 3] 0 (5 / 2) = Inr [0, 2 / 5, 1, 9 / 5, 3]
   \<and> adjust_beats [0, 1, 3] 0 3 = Inr [0, 1 / 3, 2 / 3, 1, 5 / 3, 7 / 3, 3]"
proof -
  have h: "2 \<le> length [0, 1, 3 :: real]" "\<forall>b\<in>set [0, 1, 3 :: real]. 0 \<le> b" by simp_all
  have f: "nat (py_int (5 / 2)) = 2" "nat (py_int 3) = 3" by (simp_all add: py_int_def)
  show ?thesis
    using adjust_beats_densify [OF h, of "5 / 2"] adjust_beats_densify [OF h, of 3]
    by (simp add: adjust_beats_def keep_nonneg_def f upt_conv_Cons)
qed

section \<open>Click track\<close>

lemma click_loop_map:
  "click_loop S bs clicks =
     clicks @ map (\<lambda>b. \<lparr>time = b, accent = (\<exists>db\<in>S. \<bar>b - db\<bar> < 1 / 100)\<rparr>) bs"
  by (induction bs arbitrary: clicks) simp_all

text \<open>
  C1: the click track has exactly one event per beat, in input order, so its length is the
  number of beats; the time of an event is its beat, and its accent is true if and only if
  some downbeat is strictly closer than 0.01 to the beat. A downbeat that matches no beat
  adds no event. Without downbeats no event is accented.
\<close>

theorem generate_click_track_times_events:
  "generate_click_track_times beats (Some downbeats) =
     map (\<lambda>b. \<lparr>time = b, accent = (\<exists>d\<in>set downbeats. \<bar>b - d\<bar> < 1 / 100)\<rparr>) beats
   \<and> length (generate_click_track_times beats (Some downbeats)) = length beats
   \<and> generate_click_track_times beats None = map (\<lambda>b. \<lparr>time = b, accent = False\<rparr>) beats"
  by (simp add: generate_click_track_times_def click_loop_map)

theorem generate_click_track_times_witness:
  "generate_click_track_times [1, 2, 3 + 1 / 200, 9] (Some [1 + 1 / 200, 3, 3 + 1 / 100, 7]) =
     [\<lparr>time = 1, accent = True\<rparr>, \<lparr>time = 2, accent = False\<rparr>,
      \<lparr>time = 3 + 1 / 200, accent = True\<rparr>, \<lparr>time = 9, accent = False\<rparr>]"
  using generate_click_track_times_events [of "[1, 2, 3 + 1 / 200, 9]" "[1 + 1 / 200, 3, 3 + 1 / 100, 7]"]
  by simp

section \<open>Explicit beat update\<close>

text \<open>
  C8: a request that supplies new beat times (and no offset) to an analysed file stores
  them, stores as downbeats the beats at the indices 0, 4, 8, ..., and stores beat numbers
  that cycle 1, 2, 3, 4 over the beats; for the beats 1.0 to 8.0 the downbeats are
  \<open>[1.0, 5.0]\<close> and the beat numbers \<open>[1, 2, 3, 4, 1, 2, 3, 4]\<close>.
\<close>

theorem update_beats_explicit:
  assumes "analysis_results file_id = Some info"
    and "beat_data info = Some g"
    and "req_beats d = Some new_beats"
    and "req_offset d = None"
  shows "\<exists>g'. update_beats analysis_results file_id (Some d) =
             (analysis_results(file_id \<mapsto> info\<lparr>beat_data := Some g'\<rparr>), Updated g')
          \<and> grid_beats g' = new_beats
          \<and> grid_downbeats g' = map (\<lambda>k. new_beats ! (4 * k)) [0..<(length new_beats + 3) div 4]
          \<and> grid_beat_numbers g' = map (\<lambda>i. i mod 4 + 1) [0..<length new_beats]
          \<and> (new_beats = [1, 2, 3, 4, 5, 6, 7, 8] \<longrightarrow>
                grid_downbeats g' = [1, 5] \<and> grid_beat_numbers g' = [1, 2, 3, 4, 1, 2, 3, 4])"
proof -
  define g3 where "g3 = (case req_bpm d of None \<Rightarrow> set_beats new_beats g
                          | Some b \<Rightarrow> (set_beats new_beats g)\<lparr>grid_bpm := b\<rparr>)"
  have run: "update_beats analysis_results file_id (Some d) =
          (analysis_results(file_id \<mapsto> info\<lparr>beat_data := Some g3\<rparr>), Updated g3)"
    using assms by (simp add: update_beats_def g3_def Let_def)
  have b: "grid_beats g3 = new_beats"
    by (simp add: g3_def set_beats_def split: option.split)
  have db: "grid_downbeats g3 = stride 4 new_beats"
    by (simp add: g3_def set_beats_def split: option.split)
  have "stride 4 new_beats = map (\<lambda>k. new_beats ! (4 * k)) [0..<(length new_beats + 3) div 4]"
    using stride_index [of 4 new_beats] by (simp add: ac_simps)
  with db have db': "grid_downbeats g3 = map (\<lambda>k. new_beats ! (4 * k)) [0..<(length new_beats + 3) div 4]"
    by (simp only:)
  have bn: "grid_beat_numbers g3 = map (\<lambda>i. i mod 4 + 1) [0..<length new_beats]"
    by (simp add: g3_def set_beats_def split: option.split)
  have ex1: "stride 4 [1, 2, 3, 4, 5, 6, 7, 8 :: real] = [1, 5]" by code_simp
  have ex2: "map (\<lambda>i. i mod 4 + 1) [0..<length [1, 2, 3, 4, 5, 6, 7, 8 :: real]]
               = [1, 2, 3, 4, 1, 2, 3, 4 :: nat]" by code_simp
  have ex: "new_beats = [1, 2, 3, 4, 5, 6, 7, 8] \<longrightarrow>
                grid_downbeats g3 = [1, 5] \<and> grid_beat_numbers g3 = [1, 2, 3, 4, 1, 2, 3, 4]"
    using db bn ex1 ex2 by simp
  from run b db' bn ex show ?thesis by blast
qed

theorem update_beats_explicit_witness:
  "update_beats
     [''f1'' \<mapsto> \<lparr>filepath = ''uploads/f1.mp3'', filename = ''a.mp3'', status = ''analyzed'',
        beat_data = Some \<lparr>grid_beats = [1 / 2, 1], grid_downbeats = [1 / 2],
          grid_beat_numbers = [1, 2], grid_bpm = 120, grid_time_signature = ''4/4'',
          grid_confidence = 9 / 10\<rparr>\<rparr>]
     ''f1''
     (Some \<lparr>req_beats = Some [1, 2, 3, 4, 5, 6, 7, 8], req_offset = None, req_bpm = None,
            req_other = False\<rparr>)
   = ([''f1'' \<mapsto> \<lparr>filepath = ''uploads/f1.mp3'', filename = ''a.mp3'', status = ''analyzed'',
        beat_data = Some \<lparr>grid_beats = [1, 2, 3, 4, 5, 6, 7, 8], grid_downbeats = [1, 5],
          grid_beat_numbers = [1, 2, 3, 4, 1, 2, 3, 4], grid_bpm = 120,
          grid_time_signature = ''4/4'', grid_confidence = 9 / 10\<rparr>\<rparr>],
      Updated \<lparr>grid_beats = [1, 2, 3, 4, 5, 6, 7, 8], grid_downbeats = [1, 5],
          grid_beat_numbers = [1, 2, 3, 4, 1, 2, 3, 4], grid_bpm = 120,
          grid_time_signature = ''4/4'', grid_confidence = 9 / 10\<rparr>)"
proof -
  let ?g = "\<lparr>grid_beats = [1 / 2, 1], grid_downbeats = [1 / 2],
          grid_beat_numbers = [1, 2], grid_bpm = 120, grid_time_signature = ''4/4'',
          grid_confidence = 9 / 10\<rparr>"
  let ?info = "\<lparr>filepath = ''uploads/f1.mp3'', filename = ''a.mp3'', status = ''analyzed'',
        beat_data = Some ?g\<rparr>"
  let ?d = "\<lparr>req_beats = Some [1, 2, 3, 4, 5, 6, 7, 8], req_offset = None, req_bpm = None,
            req_other = False\<rparr>"
  have s: "stride 4 [1, 2, 3, 4, 5, 6, 7, 8 :: real] = [1, 5]" by code_simp
  have m: "map (\<lambda>i. i mod 4 + 1) [0..<8] = [1, 2, 3, 4, 1, 2, 3, 4 :: nat]" by code_simp
  show ?thesis
    using update_beats_explicit [of "[''f1'' \<mapsto> ?info]" "''f1''" ?info ?g ?d "[1, 2, 3, 4, 5, 6, 7, 8]"]
    by (simp add: update_beats_def set_beats_def Let_def s m del: upt_Suc upt.simps)
qed

section \<open>Energy sections\<close>















section \<open>Structure segmentation\<close>

lemma length_uniform_bounds: "length (uniform_bounds n k) = k + 1"
  by (simp add: uniform_bounds_def)

lemma nth_uniform_bounds:
  "i \<le> k \<Longrightarrow> uniform_bounds n k ! i = nat \<lfloor>real i * (real n / real k)\<rfloor>"
  unfolding uniform_bounds_def by (simp del: upt_Suc)

lemma uniform_bounds_first: "uniform_bounds n k ! 0 = 0"
  by (simp add: nth_uniform_bounds)

lemma uniform_bounds_last: "0 < k \<Longrightarrow> uniform_bounds n k ! k = n"
  by (simp add: nth_uniform_bounds)

lemma bound_frames_ends:
  assumes "agglomerative \<noteq> None \<or> 0 < num_sections"
  shows "2 \<le> length (bound_frames_of agglomerative n_frames num_sections)"
    and "bound_frames_of agglomerative n_frames num_sections ! 0 = 0"
    and "bound_frames_of agglomerative n_frames num_sections
           ! (length (bound_frames_of agglomerative n_frames num_sections) - 1) = n_frames"
proof -
  show "2 \<le> length (bound_frames_of agglomerative n_frames num_sections)"
    using assms by (cases agglomerative) (simp_all add: bound_frames_of_def length_uniform_bounds)
  show "bound_frames_of agglomerative n_frames num_sections ! 0 = 0"
    by (cases agglomerative) (simp_all add: bound_frames_of_def uniform_bounds_first)
  show "bound_frames_of agglomerative n_frames num_sections
           ! (length (bound_frames_of agglomerative n_frames num_sections) - 1) = n_frames"
  proof (cases agglomerative)
    case None
    with assms show ?thesis
      by (simp add: bound_frames_of_def length_uniform_bounds uniform_bounds_last)
  next
    case (Some bounds)
    have "(0 # bounds @ [n_frames]) ! Suc (length bounds) = n_frames"
      by (simp add: nth_append)
    with Some show ?thesis by (simp add: bound_frames_of_def)
  qed
qed

lemma analyze_structure_sections:
  "res_sections (analyze_structure agglomerative kmeans T n_frames duration num_sections) =
     map (\<lambda>i. mk_section
                 (T (bound_frames_of agglomerative n_frames num_sections ! i))
                 (T (bound_frames_of agglomerative n_frames num_sections ! (i + 1)))
                 (label_segments kmeans
                    (length (bound_frames_of agglomerative n_frames num_sections) - 1)
                    (map T (bound_frames_of agglomerative n_frames num_sections)) duration ! i))
       [0..<length (bound_frames_of agglomerative n_frames num_sections) - 1]"
  by (simp add: analyze_structure_def Let_def)

lemma sec_start_mk_section: "sec_start (mk_section s e l) = s"
  by (simp add: mk_section_def)

lemma sec_end_mk_section: "sec_end (mk_section s e l) = e"
  by (simp add: mk_section_def)

lemma analyze_structure_ends:
  assumes "agglomerative \<noteq> None \<or> 0 < num_sections"
  shows "length (res_sections
            (analyze_structure agglomerative kmeans T n_frames duration num_sections))
          = length (bound_frames_of agglomerative n_frames num_sections) - 1"
    and "res_sections
            (analyze_structure agglomerative kmeans T n_frames duration num_sections) \<noteq> []"
    and "sec_start (hd (res_sections
            (analyze_structure agglomerative kmeans T n_frames duration num_sections))) = T 0"
    and "Suc i < length (res_sections
            (analyze_structure agglomerative kmeans T n_frames duration num_sections)) \<Longrightarrow>
         sec_end (res_sections
            (analyze_structure agglomerative kmeans T n_frames duration num_sections) ! i)
         = sec_start (res_sections
            (analyze_structure agglomerative kmeans T n_frames duration num_sections) ! Suc i)"
    and "sec_end (last (res_sections
            (analyze_structure agglomerative kmeans T n_frames duration num_sections)))
         = T n_frames"
proof -
  let ?bf = "bound_frames_of agglomerative n_frames num_sections"
  let ?S = "res_sections
              (analyze_structure agglomerative kmeans T n_frames duration num_sections)"
  let ?f = "\<lambda>i. mk_section (T (?bf ! i)) (T (?bf ! (i + 1)))
                 (label_segments kmeans (length ?bf - 1) (map T ?bf) duration ! i)"
  have S: "?S = map ?f [0..<length ?bf - 1]" by (rule analyze_structure_sections)
  have two: "2 \<le> length ?bf" and first: "?bf ! 0 = 0"
    and final: "?bf ! (length ?bf - 1) = n_frames"
    using assms by (rule bound_frames_ends)+
  show len: "length ?S = length ?bf - 1" by (simp add: S)
  from two len show ne: "?S \<noteq> []" by auto
  have nth: "?S ! j = ?f j" if "j < length ?bf - 1" for j
    using that by (simp add: S)
  have "hd ?S = ?S ! 0" using ne by (simp add: hd_conv_nth)
  also have "\<dots> = ?f 0" using two by (intro nth) simp
  finally show "sec_start (hd ?S) = T 0" by (simp add: sec_start_mk_section first)
  show "sec_end (?S ! i) = sec_start (?S ! Suc i)" if "Suc i < length ?S"
  proof -
    from that len have "i < length ?bf - 1" "Suc i < length ?bf - 1" by simp_all
    then have "?S ! i = ?f i" "?S ! Suc i = ?f (Suc i)" by (simp_all only: nth)
    then show ?thesis by (simp add: sec_start_mk_section sec_end_mk_section)
  qed
  have idx: "length ?S - 1 = length ?bf - 2" using len by simp
  have lt: "length ?bf - 2 < length ?bf - 1" using two by simp
  have "last ?S = ?S ! (length ?S - 1)" using ne by (rule last_conv_nth)
  also have "\<dots> = ?S ! (length ?bf - 2)" by (simp only: idx)
  also have "\<dots> = ?f (length ?bf - 2)" using lt by (rule nth)
  finally have "sec_end (last ?S) = T (?bf ! (length ?bf - 2 + 1))"
    by (simp add: sec_end_mk_section)
  also have "length ?bf - 2 + 1 = length ?bf - 1" using two by simp
  finally show "sec_end (last ?S) = T n_frames" by (simp only: final)
qed

lemma librosa_overshoot:
  "librosa_frames_to_time sr (librosa_frame_count n_samples)
     - librosa_get_duration sr n_samples
   = real (512 - n_samples mod 512) / real sr"
proof -
  define q where "q = n_samples div 512"
  define r where "r = n_samples mod 512"
  have "q * 512 + r = n_samples" unfolding q_def r_def by (rule div_mult_mod_eq)
  then have "real (q * 512 + r) = real n_samples" by (rule arg_cong)
  then have n: "real n_samples = real q * 512 + real r" by simp
  have "r < 512" unfolding r_def by simp
  then have d: "real (512 - r) = 512 - real r" by (simp add: of_nat_diff)
  have "real (1 + q) * 512 / real sr - real n_samples / real sr
          = (real (1 + q) * 512 - real n_samples) / real sr"
    by (simp only: diff_divide_distrib)
  also have "real (1 + q) * 512 - real n_samples = 512 - real r"
    by (simp add: n algebra_simps)
  finally show ?thesis
    unfolding librosa_frames_to_time_def librosa_get_duration_def librosa_frame_count_def
    by (simp only: d q_def [symmetric] r_def [symmetric])
qed

text \<open>
  C7, as stated: the first section starts at 0, each section ends where the next starts,
  and the last section ends at the track duration within floating tolerance. The last
  section ends at the time of frame \<^verbatim>\<open>features.shape[1]\<close>, not at the duration: for a track
  of 132300 samples at 22050 Hz, which lasts 6 s and has 259 feature frames, it ends at
  \<open>259 * 512 / 22050\<close>, that is 308 / 22050 s (about 14 ms) after the duration.
\<close>

theorem analyze_structure_contiguous_counterexample:
  "sec_end (last (res_sections
      (analyze_structure (Some [0, 32, 64, 97, 129, 161, 194, 226]) None
         (librosa_frames_to_time 22050) (librosa_frame_count 132300)
         (librosa_get_duration 22050 132300) 8)))
     = 6 + 308 / 22050
   \<and> res_duration
      (analyze_structure (Some [0, 32, 64, 97, 129, 161, 194, 226]) None
         (librosa_frames_to_time 22050) (librosa_frame_count 132300)
         (librosa_get_duration 22050 132300) 8)
     = 6
   \<and> (1 / 100 :: real) < 308 / 22050"
proof -
  have "sec_end (last (res_sections
      (analyze_structure (Some [0, 32, 64, 97, 129, 161, 194, 226]) None
         (librosa_frames_to_time 22050) (librosa_frame_count 132300)
         (librosa_get_duration 22050 132300) 8)))
     = librosa_frames_to_time 22050 (librosa_frame_count 132300)"
    by (rule analyze_structure_ends(5)) simp
  moreover have "librosa_frames_to_time 22050 (librosa_frame_count 132300) = 6 + 308 / 22050"
    by (simp add: librosa_frames_to_time_def librosa_frame_count_def)
  moreover have "res_duration
      (analyze_structure (Some [0, 32, 64, 97, 129, 161, 194, 226]) None
         (librosa_frames_to_time 22050) (librosa_frame_count 132300)
         (librosa_get_duration 22050 132300) 8) = 6"
    by (simp add: analyze_structure_def Let_def librosa_get_duration_def)
  ultimately show ?thesis by simp
qed

text \<open>
  C7, amended: whenever the section list is not empty (the clustering succeeded, or
  \<open>num_sections > 0\<close> in the fallback), the first section starts at the time of frame 0,
  each section ends where the next starts, and the last section ends at the time of frame
  \<^verbatim>\<open>features.shape[1]\<close>. With librosa's framing the first start is 0 and the last end
  exceeds the duration of a track of \<open>n\<close> samples by \<open>(512 - n mod 512) / sr\<close> seconds, up
  to one hop of 512 samples.
\<close>

theorem analyze_structure_contiguous:
  assumes "agglomerative \<noteq> None \<or> 0 < num_sections"
  shows
    "res_sections (analyze_structure agglomerative kmeans T n_frames duration num_sections)
       \<noteq> []
     \<and> sec_start (hd (res_sections
          (analyze_structure agglomerative kmeans T n_frames duration num_sections))) = T 0
     \<and> (\<forall>i. Suc i < length (res_sections
                (analyze_structure agglomerative kmeans T n_frames duration num_sections)) \<longrightarrow>
            sec_end (res_sections
                (analyze_structure agglomerative kmeans T n_frames duration num_sections) ! i)
            = sec_start (res_sections
                (analyze_structure agglomerative kmeans T n_frames duration num_sections)
                  ! Suc i))
     \<and> sec_end (last (res_sections
          (analyze_structure agglomerative kmeans T n_frames duration num_sections)))
         = T n_frames
     \<and> sec_start (hd (res_sections
          (analyze_structure agglomerative kmeans (librosa_frames_to_time sr)
             (librosa_frame_count n_samples) (librosa_get_duration sr n_samples)
             num_sections))) = 0
     \<and> sec_end (last (res_sections
          (analyze_structure agglomerative kmeans (librosa_frames_to_time sr)
             (librosa_frame_count n_samples) (librosa_get_duration sr n_samples)
             num_sections)))
         - res_duration
             (analyze_structure agglomerative kmeans (librosa_frames_to_time sr)
                (librosa_frame_count n_samples) (librosa_get_duration sr n_samples)
                num_sections)
         = real (512 - n_samples mod 512) / real sr"
proof -
  note ends = analyze_structure_ends [OF assms]
  have dur: "res_duration (analyze_structure agglomerative kmeans T' n d num_sections) = d"
    for T' n d
    by (simp add: analyze_structure_def Let_def)
  have zero: "librosa_frames_to_time sr 0 = 0"
    by (simp add: librosa_frames_to_time_def)
  have chain: "\<forall>i. Suc i < length (res_sections
                (analyze_structure agglomerative kmeans T n_frames duration num_sections)) \<longrightarrow>
            sec_end (res_sections
                (analyze_structure agglomerative kmeans T n_frames duration num_sections) ! i)
            = sec_start (res_sections
                (analyze_structure agglomerative kmeans T n_frames duration num_sections)
                  ! Suc i)"
    using ends(4) by blast
  show ?thesis
    by (intro conjI chain) (simp_all only: ends(2) ends(3) ends(5) dur zero librosa_overshoot
      not_False_eq_True)
qed

theorem analyze_structure_contiguous_witness:
  "res_sections (analyze_structure None (Some (\<lambda>i. i mod 4)) (librosa_frames_to_time 22050)
       (librosa_frame_count 132300) (librosa_get_duration 22050 132300) 8) \<noteq> []
   \<and> sec_start (hd (res_sections (analyze_structure None (Some (\<lambda>i. i mod 4))
       (librosa_frames_to_time 22050) (librosa_frame_count 132300)
       (librosa_get_duration 22050 132300) 8))) = 0
   \<and> sec_end (last (res_sections (analyze_structure None (Some (\<lambda>i. i mod 4))
       (librosa_frames_to_time 22050) (librosa_frame_count 132300)
       (librosa_get_duration 22050 132300) 8))) = 259 * 512 / 22050
   \<and> sec_end (res_sections (analyze_structure None (Some (\<lambda>i. i mod 4))
       (librosa_frames_to_time 22050) (librosa_frame_count 132300)
       (librosa_get_duration 22050 132300) 8) ! 0)
     = sec_start (res_sections (analyze_structure None (Some (\<lambda>i. i mod 4))
       (librosa_frames_to_time 22050) (librosa_frame_count 132300)
       (librosa_get_duration 22050 132300) 8) ! 1)"
proof -
  let ?R = "analyze_structure None (Some (\<lambda>i. i mod 4)) (librosa_frames_to_time 22050)
       (librosa_frame_count 132300) (librosa_get_duration 22050 132300) 8"
  have h: "(None :: nat list option) \<noteq> None \<or> 0 < (8::nat)" by simp
  note t = analyze_structure_contiguous [OF h, of "Some (\<lambda>i. i mod 4)"
      "librosa_frames_to_time 22050" "librosa_frame_count 132300"
      "librosa_get_duration 22050 132300" 22050 132300]
  have len: "length (res_sections ?R) = 8"
    using analyze_structure_ends(1) [OF h, of "Some (\<lambda>i. i mod 4)"
      "librosa_frames_to_time 22050" "librosa_frame_count 132300"
      "librosa_get_duration 22050 132300"]
    by (simp add: bound_frames_of_def length_uniform_bounds)
  have n: "librosa_frames_to_time 22050 (librosa_frame_count 132300) = 259 * 512 / 22050"
    by (simp add: librosa_frames_to_time_def librosa_frame_count_def)
  from t have chain: "Suc 0 < length (res_sections ?R) \<longrightarrow>
      sec_end (res_sections ?R ! 0) = sec_start (res_sections ?R ! Suc 0)"
    by blast
  from t chain len n show ?thesis by simp
qed

end
